theory Spec2Isabelle
  imports Main
begin

section \<open>Strings and the character tables of the runtime\<close>

text \<open>
  A Python \<open>str\<close> is a sequence of Unicode code points, so a string is a list of
  natural numbers and its length counts code points.  The methods \<open>str.lower\<close>,
  \<open>str.isalnum\<close> and \<open>str.isspace\<close> read the Unicode character database of the
  interpreter, which is not part of the repository: the three tables are a parameter of
  the model.  \<open>lower_cp\<close> gives the lower-case mapping of one code point (a list,
  since a mapping may expand to several code points); the context-sensitive rule for the
  Greek capital sigma is not modelled.
\<close>

type_synonym codepoint = nat
type_synonym ustring = "codepoint list"

record chardb =
  lower_cp :: "codepoint \<Rightarrow> codepoint list"
  isalnum_cp :: "codepoint \<Rightarrow> bool"
  isspace_cp :: "codepoint \<Rightarrow> bool"

text \<open>\<^verbatim>\<open>text.lower()\<close>\<close>

definition str_lower :: "chardb \<Rightarrow> ustring \<Rightarrow> ustring" where
  "str_lower U s = concat (map (lower_cp U) s)"

text \<open>
  \<^verbatim>\<open>s.split()\<close> without arguments: the maximal runs of non-whitespace characters, in
  order; \<open>cur\<close> is the word being scanned.
\<close>

fun split_scan :: "(codepoint \<Rightarrow> bool) \<Rightarrow> ustring \<Rightarrow> ustring \<Rightarrow> ustring list" where
  "split_scan sp cur [] = (if cur = [] then [] else [cur])"
| "split_scan sp cur (c # cs) =
     (if sp c then (if cur = [] then split_scan sp [] cs else cur # split_scan sp [] cs)
      else split_scan sp (cur @ [c]) cs)"

definition str_split :: "chardb \<Rightarrow> ustring \<Rightarrow> ustring list" where
  "str_split U s = split_scan (isspace_cp U) [] s"

text \<open>\<^verbatim>\<open>sep.join(ws)\<close>\<close>

fun str_join :: "ustring \<Rightarrow> ustring list \<Rightarrow> ustring" where
  "str_join sep [] = []"
| "str_join sep [w] = w"
| "str_join sep (w # v # ws) = w @ sep @ str_join sep (v # ws)"

text \<open>
  \<^verbatim>\<open>return " ".join(''.join(e for e in text.lower() if e.isalnum() or e.isspace()).split())\<close>
\<close>

definition clean_text :: "chardb \<Rightarrow> ustring \<Rightarrow> ustring" where
  "clean_text U text =
     str_join [32] (str_split U (filter (\<lambda>e. isalnum_cp U e \<or> isspace_cp U e) (str_lower U text)))"

text \<open>
  What idempotence of the normaliser needs from the tables: the space inserted by
  \<open>join\<close> is whitespace and its own lower case, and an alphanumeric code point that
  \<open>lower\<close> produces is its own lower case.  The Unicode tables have both properties.
\<close>

definition chardb_stable :: "chardb \<Rightarrow> bool" where
  "chardb_stable U \<longleftrightarrow>
     isspace_cp U 32 \<and> lower_cp U 32 = [32] \<and>
     (\<forall>c. \<forall>d \<in> set (lower_cp U c). isalnum_cp U d \<longrightarrow> lower_cp U d = [d])"

text \<open>
  A table for evaluation on concrete inputs: ASCII and the Cyrillic block
  U+0400..U+045F, with the whitespace code points of the interpreter; every other code
  point is taken as a caseless symbol.
\<close>

definition basic_lower :: "codepoint \<Rightarrow> codepoint list" where
  "basic_lower c =
     (if 65 \<le> c \<and> c \<le> 90 then [c + 32]
      else if 1040 \<le> c \<and> c \<le> 1071 then [c + 32]
      else if 1024 \<le> c \<and> c \<le> 1039 then [c + 80]
      else [c])"

definition basic_isalnum :: "codepoint \<Rightarrow> bool" where
  "basic_isalnum c \<longleftrightarrow>
     (48 \<le> c \<and> c \<le> 57) \<or> (65 \<le> c \<and> c \<le> 90) \<or> (97 \<le> c \<and> c \<le> 122) \<or>
     (1024 \<le> c \<and> c \<le> 1119)"

definition basic_isspace :: "codepoint \<Rightarrow> bool" where
  "basic_isspace c \<longleftrightarrow>
     (9 \<le> c \<and> c \<le> 13) \<or> (28 \<le> c \<and> c \<le> 32) \<or> c = 133 \<or> c = 160 \<or> c = 5760 \<or>
     (8192 \<le> c \<and> c \<le> 8202) \<or> c = 8232 \<or> c = 8233 \<or> c = 8239 \<or> c = 8287 \<or> c = 12288"

definition basic_chardb :: chardb where
  "basic_chardb = \<lparr>lower_cp = basic_lower, isalnum_cp = basic_isalnum, isspace_cp = basic_isspace\<rparr>"


section \<open>The similarity scorer\<close>

text \<open>
  \<open>calculate_similarity\<close> hands the two normalised texts to \<open>fuzz.ratio\<close> of the
  fuzzywuzzy library.  The library is not in the repository, so its ratio is modelled
  from the specification: \<open>2 * M / T\<close>, where \<open>M\<close> is the number of matching characters
  found by a longest-common-substring-based recursive matching procedure and \<open>T\<close> is the
  combined length of both strings, scaled to an integer percentage, with the value 100
  on two empty strings.  Where the specification leaves a choice open, the model follows
  the reference matcher of the library (\<open>difflib.SequenceMatcher\<close>): among the longest
  common blocks it takes the one that starts earliest in the first string and, among
  those, earliest in the second.  The matcher's heuristic for sequences of 200 and more
  elements is not in the specification and is not modelled.
\<close>

text \<open>Modelled from the spec: the length of the common block that starts both lists
  (a step of the longest-common-substring search of \<open>fuzz.ratio\<close>, which is missing).\<close>

fun common_prefix_len :: "'a list \<Rightarrow> 'a list \<Rightarrow> nat" where
  "common_prefix_len (x # xs) (y # ys) = (if x = y then Suc (common_prefix_len xs ys) else 0)"
| "common_prefix_len _ _ = 0"

text \<open>Modelled from the spec: one step of the search for the longest common substring of
  the missing \<open>fuzz.ratio\<close>; the block starting at \<open>(i, j)\<close> replaces the best one so
  far only when it is strictly longer.\<close>

definition longer_match ::
  "'a list \<Rightarrow> 'a list \<Rightarrow> nat \<times> nat \<Rightarrow> nat \<times> nat \<times> nat \<Rightarrow> nat \<times> nat \<times> nat" where
  "longer_match a b p best =
     (case p of (i, j) \<Rightarrow> case best of (besti, bestj, bestsize) \<Rightarrow>
        let k = common_prefix_len (drop i a) (drop j b)
        in if bestsize < k then (i, j, k) else (besti, bestj, bestsize))"

text \<open>Modelled from the spec: the longest common substring of the missing \<open>fuzz.ratio\<close>,
  as \<open>(i, j, k)\<close> with \<open>a[i:i+k] == b[j:j+k]\<close>; start positions are tried in increasing
  order of \<open>i\<close>, then of \<open>j\<close>, and \<open>(0, 0, 0)\<close> stands for no common element.\<close>

definition find_longest_match :: "'a list \<Rightarrow> 'a list \<Rightarrow> nat \<times> nat \<times> nat" where
  "find_longest_match a b =
     fold (longer_match a b) (List.product [0..<length a] [0..<length b]) (0, 0, 0)"

text \<open>Modelled from the spec: \<open>M\<close>, the number of matching characters of the missing
  \<open>fuzz.ratio\<close>: the longest common substring, then the same procedure on the pieces to
  its left and on the pieces to its right.\<close>

function matching_chars :: "'a list \<Rightarrow> 'a list \<Rightarrow> nat" where
  "matching_chars a b =
     (case find_longest_match a b of (i, j, k) \<Rightarrow>
        if k = 0 then 0
        else matching_chars (take i a) (take j b) + k
             + matching_chars (drop (i + k) a) (drop (j + k) b))"
  by pat_completeness auto
termination
proof -
  have le: "common_prefix_len xs ys \<le> length xs" for xs ys :: "'a list"
    by (induction xs ys rule: common_prefix_len.induct) simp_all
  have step: "fst (longer_match a b p best) + snd (snd (longer_match a b p best)) \<le> length a"
    if "fst best + snd (snd best) \<le> length a" for a b :: "'a list" and p best
  proof -
    obtain i j where p: "p = (i, j)" by (cases p)
    obtain bi bj bk where best: "best = (bi, bj, bk)" by (cases best)
    have "common_prefix_len (drop i a) (drop j b) \<le> length a - i"
      using le[of "drop i a" "drop j b"] by simp
    then have "bk < common_prefix_len (drop i a) (drop j b) \<Longrightarrow>
        i + common_prefix_len (drop i a) (drop j b) \<le> length a"
      by arith
    with that show ?thesis
      by (simp add: longer_match_def p best Let_def)
  qed
  have run: "fst (fold (longer_match a b) ps best) + snd (snd (fold (longer_match a b) ps best))
      \<le> length a"
    if "fst best + snd (snd best) \<le> length a" for a b :: "'a list" and ps best
    using that by (induction ps arbitrary: best) (simp_all add: step)
  have inside: "i + k \<le> length a" if "find_longest_match a b = (i, j, k)"
    for a b :: "'a list" and i j k
    using run[of "(0, 0, 0)" a b "List.product [0..<length a] [0..<length b]"] that
    by (simp add: find_longest_match_def)
  show ?thesis
  proof (relation "measure (\<lambda>(a, b). length a)")
    show "wf (measure (\<lambda>(a, b). length a))" by simp
  next
    fix a b :: "'a list" and i y j k
    assume "(i, y) = find_longest_match a b" "(j, k) = y" "k \<noteq> 0"
    then have "find_longest_match a b = (i, j, k)" by simp
    from inside[OF this] \<open>k \<noteq> 0\<close>
    show "((take i a, take j b), a, b) \<in> measure (\<lambda>(a, b). length a)" by (simp; arith)
  next
    fix a b :: "'a list" and i y j k
    assume "(i, y) = find_longest_match a b" "(j, k) = y" "k \<noteq> 0"
    then have "find_longest_match a b = (i, j, k)" by simp
    from inside[OF this] \<open>k \<noteq> 0\<close>
    show "((drop (i + k) a, drop (j + k) b), a, b) \<in> measure (\<lambda>(a, b). length a)"
      by (simp; arith)
  qed
qed

declare matching_chars.simps [simp del]

text \<open>Modelled from the spec: the scaling of the missing \<open>fuzz.ratio\<close> to an integer
  percentage, as the fraction \<open>p / q\<close> rounded to the nearest integer, an exact half to
  the even neighbour (Python's \<open>round\<close>).  The library rounds a binary floating-point
  product; the model rounds the exact fraction.\<close>

definition intr :: "nat \<Rightarrow> nat \<Rightarrow> int" where
  "intr p q =
     (let d = p div q; r = p mod q
      in int (if 2 * r < q then d else if q < 2 * r then d + 1 else if even d then d else d + 1))"

text \<open>Modelled from the spec: \<open>fuzz.ratio\<close> of the fuzzywuzzy library, which is missing:
  \<open>2 * M / T\<close> as an integer percentage, and 100 on two empty strings.\<close>

definition fuzz_ratio :: "ustring \<Rightarrow> ustring \<Rightarrow> int" where
  "fuzz_ratio s1 s2 =
     (let T = length s1 + length s2
      in if T = 0 then 100 else intr (100 * (2 * matching_chars s1 s2)) T)"

definition calculate_similarity :: "chardb \<Rightarrow> ustring \<Rightarrow> ustring \<Rightarrow> int" where
  "calculate_similarity U original user_text =
     (let cleaned_original = clean_text U original;
          cleaned_user_text = clean_text U user_text
      in fuzz_ratio cleaned_original cleaned_user_text)"


section \<open>Inbound events and exceptions\<close>

text \<open>
  The event is the JSON-like value that the transport passes in: nested dictionaries of
  strings and booleans.  Subscripting raises \<open>KeyError\<close> on a missing key and
  \<open>TypeError\<close> on a value that is not a dictionary; only a \<open>str\<close> has \<open>lower\<close>.
\<close>

datatype pyval = PNone | PBool bool | PInt int | PStr ustring | PDict "(string \<times> pyval) list"

datatype exn = KeyError | TypeError | AttributeError | UnboundLocalError | DatabaseError

fun subscript :: "pyval \<Rightarrow> string \<Rightarrow> exn + pyval" where
  "subscript (PDict kvs) k = (case map_of kvs k of None \<Rightarrow> Inl KeyError | Some v \<Rightarrow> Inr v)"
| "subscript _ k = Inl TypeError"

text \<open>\<^verbatim>\<open>event[a][b]\<close>\<close>

definition event_field :: "pyval \<Rightarrow> string \<Rightarrow> string \<Rightarrow> exn + pyval" where
  "event_field event a b = (case subscript event a of Inl e \<Rightarrow> Inl e | Inr v \<Rightarrow> subscript v b)"

fun truthy :: "pyval \<Rightarrow> bool" where
  "truthy PNone = False"
| "truthy (PBool b) = b"
| "truthy (PInt n) = (n \<noteq> 0)"
| "truthy (PStr s) = (s \<noteq> [])"
| "truthy (PDict kvs) = (kvs \<noteq> [])"


section \<open>The persistence store\<close>

text \<open>
  The table \<open>texts(session_id PRIMARY KEY, original_text)\<close> is a map from the session
  identifier to the stored text.  The database server and its driver are outside the
  repository: \<open>failures\<close> is the schedule of what they will do, one entry for each
  coming call of \<open>execute_query\<close>, \<open>True\<close> when the connection or the statement
  fails (an empty schedule means no failure).  Column length limits and collations
  are not modelled.
\<close>

record store =
  texts :: "ustring \<rightharpoonup> ustring"
  failures :: "bool list"

text \<open>The four SQL statements of the module.\<close>

datatype statement = CreateTable | Upsert | Select | Delete

definition get_mysql_connection :: "store \<Rightarrow> (exn + unit) \<times> store" where
  "get_mysql_connection s =
     (case failures s of
        [] \<Rightarrow> (Inr (), s)
      | f # fs \<Rightarrow> (if f then Inl DatabaseError else Inr (), s\<lparr>failures := fs\<rparr>))"

text \<open>The driver's conversion of a statement parameter; only \<open>str\<close> parameters are
  modelled, any other value is reported as a driver error.\<close>

fun sql_string :: "pyval \<Rightarrow> ustring option" where
  "sql_string (PStr x) = Some x"
| "sql_string _ = None"

text \<open>
  The effect of a statement on the rows, and the row it yields.  \<open>Upsert\<close> is
  \<^verbatim>\<open>INSERT ... VALUES (%s, %s) ON DUPLICATE KEY UPDATE original_text = %s\<close>: the
  second parameter is inserted when the key is new, the third replaces the text when
  the key exists.
\<close>

fun run_statement ::
  "statement \<Rightarrow> ustring list \<Rightarrow> (ustring \<rightharpoonup> ustring) \<Rightarrow> exn + (ustring \<rightharpoonup> ustring) \<times> ustring option" where
  "run_statement CreateTable [] m = Inr (m, None)"
| "run_statement Upsert [k, t, t'] m =
     Inr (case m k of None \<Rightarrow> m(k \<mapsto> t) | Some _ \<Rightarrow> m(k \<mapsto> t'), None)"
| "run_statement Select [k] m = Inr (m, m k)"
| "run_statement Delete [k] m = Inr (m(k := None), None)"
| "run_statement _ _ m = Inl DatabaseError"

definition cursor_execute ::
  "statement \<Rightarrow> pyval list \<Rightarrow> (ustring \<rightharpoonup> ustring) \<Rightarrow> exn + (ustring \<rightharpoonup> ustring) \<times> ustring option" where
  "cursor_execute query params m =
     (case those (map sql_string params) of
        None \<Rightarrow> Inl DatabaseError
      | Some args \<Rightarrow> run_statement query args m)"

text \<open>
  \<open>execute_query\<close>: with \<open>fetchone\<close> the row is returned before the commit, otherwise
  the statement is committed and nothing is returned.
\<close>

definition execute_query ::
  "statement \<Rightarrow> pyval list \<Rightarrow> bool \<Rightarrow> store \<Rightarrow> (exn + ustring option) \<times> store" where
  "execute_query query params fetchone s =
     (case get_mysql_connection s of
        (Inl e, s') \<Rightarrow> (Inl e, s')
      | (Inr _, s') \<Rightarrow>
          (case cursor_execute query params (texts s') of
             Inl e \<Rightarrow> (Inl e, s')
           | Inr (m, row) \<Rightarrow>
               if fetchone then (Inr row, s') else (Inr None, s'\<lparr>texts := m\<rparr>)))"

definition ensure_table_exists :: "store \<Rightarrow> (exn + unit) \<times> store" where
  "ensure_table_exists s =
     (case execute_query CreateTable [] False s of
        (Inl e, s') \<Rightarrow> (Inl e, s')
      | (Inr _, s') \<Rightarrow> (Inr (), s'))"

definition save_original_text :: "pyval \<Rightarrow> pyval \<Rightarrow> store \<Rightarrow> (exn + unit) \<times> store" where
  "save_original_text session_id text s =
     (case execute_query Upsert [session_id, text, text] False s of
        (Inl e, s') \<Rightarrow> (Inl e, s')
      | (Inr _, s') \<Rightarrow> (Inr (), s'))"

text \<open>\<^verbatim>\<open>return result[0] if result else None\<close>: the row has the one column
  \<open>original_text\<close>.\<close>

definition get_original_text :: "pyval \<Rightarrow> store \<Rightarrow> (exn + ustring option) \<times> store" where
  "get_original_text session_id s = execute_query Select [session_id] True s"

definition delete_original_text :: "pyval \<Rightarrow> store \<Rightarrow> (exn + unit) \<times> store" where
  "delete_original_text session_id s =
     (case execute_query Delete [session_id] False s of
        (Inl e, s') \<Rightarrow> (Inl e, s')
      | (Inr _, s') \<Rightarrow> (Inr (), s'))"

text \<open>No failure is scheduled for the next \<open>n\<close> queries.\<close>

definition queries_ok :: "nat \<Rightarrow> store \<Rightarrow> bool" where
  "queries_ok n s \<longleftrightarrow> True \<notin> set (take n (failures s))"


section \<open>The response builder\<close>

record button =
  title :: ustring
  hide :: bool

record response_part =
  r_text :: ustring
  r_buttons :: "button list"
  r_end_session :: bool

record session_part =
  s_session_id :: pyval
  s_user_id :: pyval
  s_new :: bool

record reply =
  response :: response_part
  session :: session_part
  version :: string

definition create_response :: "ustring \<Rightarrow> button list option \<Rightarrow> pyval \<Rightarrow> pyval \<Rightarrow> reply" where
  "create_response text buttons session_id user_id =
     \<lparr>response = \<lparr>r_text = text,
                  r_buttons = (case buttons of None \<Rightarrow> [] | Some bs \<Rightarrow> bs),
                  r_end_session = False\<rparr>,
      session = \<lparr>s_session_id = session_id, s_user_id = user_id, s_new = True\<rparr>,
      version = ''1.0''\<rparr>"


section \<open>The session dialogue controller\<close>

text \<open>The string literals of the handler, as code points.\<close>

definition greeting_text :: ustring where
  "greeting_text = [1047, 1076, 1088, 1072, 1074, 1089, 1090, 1074, 1091, 1081, 1090, 1077, 44, 32, 1074, 1074, 1077, 1076, 1080, 1090, 1077, 32, 1090, 1077, 1082, 1089, 1090, 44, 32, 1082, 1086, 1090, 1086, 1088, 1099, 1081, 32, 1093, 1086, 1090, 1080, 1090, 1077, 32, 1074, 1099, 1091, 1095, 1080, 1090, 1100, 46]"

definition reset_title :: ustring where
  "reset_title = [1057, 1073, 1088, 1086, 1089, 1080, 1090, 1100]"

definition reset_keyword :: ustring where
  "reset_keyword = [1089, 1073, 1088, 1086, 1089, 1080, 1090, 1100]"

definition deleted_text :: ustring where
  "deleted_text = [1058, 1077, 1082, 1089, 1090, 32, 1073, 1099, 1083, 32, 1091, 1076, 1072, 1083, 1105, 1085, 46, 32, 1042, 1074, 1077, 1076, 1080, 1090, 1077, 32, 1085, 1086, 1074, 1099, 1081, 32, 1090, 1077, 1082, 1089, 1090, 46]"

definition saved_text :: ustring where
  "saved_text = [1054, 1088, 1080, 1075, 1080, 1085, 1072, 1083, 1100, 1085, 1099, 1081, 32, 1090, 1077, 1082, 1089, 1090, 32, 1089, 1086, 1093, 1088, 1072, 1085, 1105, 1085, 46, 32, 1058, 1077, 1087, 1077, 1088, 1100, 32, 1088, 1072, 1089, 1089, 1082, 1072, 1078, 1080, 1090, 1077, 32, 1077, 1075, 1086, 44, 32, 1082, 1072, 1082, 32, 1074, 1099, 32, 1079, 1072, 1087, 1086, 1084, 1085, 1080, 1083, 1080, 46]"

definition error_text :: ustring where
  "error_text = [1055, 1088, 1086, 1080, 1079, 1086, 1096, 1083, 1072, 32, 1086, 1096, 1080, 1073, 1082, 1072, 46, 32, 1055, 1086, 1087, 1088, 1086, 1073, 1091, 1081, 1090, 1077, 32, 1089, 1085, 1086, 1074, 1072, 46]"

definition percent_label :: ustring where
  "percent_label = [1055, 1088, 1086, 1094, 1077, 1085, 1090, 32, 1089, 1086, 1074, 1087, 1072, 1076, 1077, 1085, 1080, 1103, 58, 32]"

definition original_label :: ustring where
  "original_label = [1054, 1088, 1080, 1075, 1080, 1085, 1072, 1083, 32, 1090, 1077, 1082, 1089, 1090, 1072, 58, 32]"

definition your_label :: ustring where
  "your_label = [1042, 1072, 1096, 32, 1090, 1077, 1082, 1089, 1090, 58, 32]"

text \<open>\<^verbatim>\<open>{"title": "...", "hide": True}\<close>\<close>

definition reset_button :: button where
  "reset_button = \<lparr>title = reset_title, hide = True\<rparr>"

text \<open>The decimal digits of \<open>str(n)\<close>, as used by the f-string of the score.\<close>

fun digits :: "nat \<Rightarrow> ustring" where
  "digits n = (if n < 10 then [48 + n] else digits (n div 10) @ [48 + n mod 10])"

declare digits.simps [simp del]

definition str_int :: "int \<Rightarrow> ustring" where
  "str_int n = (if n < 0 then 45 # digits (nat (- n)) else digits (nat n))"

text \<open>
  The body of the \<open>try\<close> block after the three fields of the event are bound
  (logging has no effect on the result).  The branches are tried in the order of the
  source: new session, reset keyword, no stored text (\<open>not original_text\<close> holds for
  \<open>None\<close> and for the empty string), stored text.
\<close>

definition handler_try ::
  "chardb \<Rightarrow> pyval \<Rightarrow> pyval \<Rightarrow> pyval \<Rightarrow> pyval \<Rightarrow> store \<Rightarrow> (exn + reply) \<times> store" where
  "handler_try U event user_message session_id user_id s =
     (case ensure_table_exists s of
        (Inl e, s1) \<Rightarrow> (Inl e, s1)
      | (Inr _, s1) \<Rightarrow>
     (case event_field event ''session'' ''new'' of
        Inl e \<Rightarrow> (Inl e, s1)
      | Inr new \<Rightarrow>
     if truthy new then
       (Inr (create_response greeting_text (Some [reset_button]) session_id user_id), s1)
     else
     (case user_message of
        PStr um \<Rightarrow>
          if str_lower U um = reset_keyword then
            (case delete_original_text session_id s1 of
               (Inl e, s2) \<Rightarrow> (Inl e, s2)
             | (Inr _, s2) \<Rightarrow>
                 (Inr (create_response deleted_text (Some [reset_button]) session_id user_id), s2))
          else
            (case get_original_text session_id s1 of
               (Inl e, s2) \<Rightarrow> (Inl e, s2)
             | (Inr original_text, s2) \<Rightarrow>
                 (case (if original_text = Some [] then None else original_text) of
                    None \<Rightarrow>
                      (case save_original_text session_id user_message s2 of
                         (Inl e, s3) \<Rightarrow> (Inl e, s3)
                       | (Inr _, s3) \<Rightarrow>
                           (Inr (create_response saved_text (Some [reset_button]) session_id user_id), s3))
                  | Some original \<Rightarrow>
                      (let similarity = calculate_similarity U original um;
                           response_text = percent_label @ str_int similarity @ [37, 10, 10] @
                                           original_label @ original @ [10, 10] @
                                           your_label @ um
                       in (Inr (create_response response_text (Some [reset_button]) session_id user_id), s2))))
      | _ \<Rightarrow> (Inl AttributeError, s1))))"

text \<open>
  The \<open>except Exception\<close> clause builds the apology from the local variables
  \<open>session_id\<close> and \<open>user_id\<close>; reading one that was never assigned (\<open>None\<close> here)
  raises \<open>UnboundLocalError\<close> inside the clause, which leaves the handler.
\<close>

definition handler_except :: "pyval option \<Rightarrow> pyval option \<Rightarrow> exn + reply" where
  "handler_except session_id user_id =
     (case session_id of
        None \<Rightarrow> Inl UnboundLocalError
      | Some sid \<Rightarrow>
          (case user_id of
             None \<Rightarrow> Inl UnboundLocalError
           | Some uid \<Rightarrow> Inr (create_response error_text (Some [reset_button]) sid uid)))"

text \<open>
  \<open>handler(event, context)\<close>: \<open>Inr\<close> is the returned response, \<open>Inl\<close> an exception
  that escapes; the second component is the store afterwards.
\<close>

definition handler :: "chardb \<Rightarrow> pyval \<Rightarrow> pyval \<Rightarrow> store \<Rightarrow> (exn + reply) \<times> store" where
  "handler U event context s =
     (case event_field event ''request'' ''original_utterance'' of
        Inl e \<Rightarrow> (handler_except None None, s)
      | Inr user_message \<Rightarrow>
     (case event_field event ''session'' ''session_id'' of
        Inl e \<Rightarrow> (handler_except None None, s)
      | Inr session_id \<Rightarrow>
     (case event_field event ''session'' ''user_id'' of
        Inl e \<Rightarrow> (handler_except (Some session_id) None, s)
      | Inr user_id \<Rightarrow>
     (case handler_try U event user_message session_id user_id s of
        (Inl e, s') \<Rightarrow> (handler_except (Some session_id) (Some user_id), s')
      | (Inr r, s') \<Rightarrow> (Inr r, s')))))"

text \<open>A well-formed event, and a store that holds one text for the session \<open>s1\<close>.\<close>

definition alice_event :: "ustring \<Rightarrow> ustring \<Rightarrow> ustring \<Rightarrow> bool \<Rightarrow> pyval" where
  "alice_event utterance sid uid new =
     PDict [(''request'', PDict [(''original_utterance'', PStr utterance)]),
            (''session'', PDict [(''session_id'', PStr sid), (''user_id'', PStr uid),
                                 (''new'', PBool new)]),
            (''version'', PStr [49, 46, 48])]"

definition example_store :: "ustring \<Rightarrow> store" where
  "example_store t = \<lparr>texts = [[115, 49] \<mapsto> t], failures = []\<rparr>"


section \<open>Properties of the normaliser\<close>

lemmas basic_tables = basic_chardb_def basic_lower_def basic_isalnum_def basic_isspace_def

lemma basic_chardb_stable: "chardb_stable basic_chardb"
  by (auto simp: chardb_stable_def basic_tables split: if_splits)

lemma split_scan_words:
  "\<forall>c \<in> set cur. \<not> sp c \<and> c \<in> A \<Longrightarrow> \<forall>c \<in> set cs. sp c \<or> c \<in> A \<Longrightarrow>
   \<forall>w \<in> set (split_scan sp cur cs). w \<noteq> [] \<and> (\<forall>c \<in> set w. \<not> sp c \<and> c \<in> A)"
proof (induction cs arbitrary: cur)
  case Nil
  then show ?case by simp
next
  case (Cons c cs)
  show ?case
  proof (cases "sp c")
    case True
    have "\<forall>w \<in> set (split_scan sp [] cs). w \<noteq> [] \<and> (\<forall>c \<in> set w. \<not> sp c \<and> c \<in> A)"
      using Cons.prems(2) by (intro Cons.IH) simp_all
    with True Cons.prems(1) show ?thesis by simp
  next
    case False
    have "\<forall>w \<in> set (split_scan sp (cur @ [c]) cs). w \<noteq> [] \<and> (\<forall>c \<in> set w. \<not> sp c \<and> c \<in> A)"
      using Cons.prems False by (intro Cons.IH) simp_all
    with False show ?thesis by simp
  qed
qed

lemma split_scan_word:
  "\<forall>c \<in> set w. \<not> sp c \<Longrightarrow> split_scan sp cur (w @ cs) = split_scan sp (cur @ w) cs"
  by (induction w arbitrary: cur) simp_all

lemma split_scan_join:
  "sp 32 \<Longrightarrow> \<forall>w \<in> set ws. w \<noteq> [] \<and> (\<forall>c \<in> set w. \<not> sp c) \<Longrightarrow>
   split_scan sp [] (str_join [32] ws) = ws"
proof (induction ws rule: induct_list012)
  case 1
  show ?case by simp
next
  case (2 w)
  then have "split_scan sp [] (w @ []) = split_scan sp ([] @ w) []"
    by (intro split_scan_word) simp
  with 2 show ?case by simp
next
  case (3 w v ws)
  from 3(4) have "split_scan sp [] (w @ (32 # str_join [32] (v # ws)))
      = split_scan sp ([] @ w) (32 # str_join [32] (v # ws))"
    by (intro split_scan_word) simp
  moreover have "split_scan sp [] (str_join [32] (v # ws)) = v # ws"
    using 3(3,4) by (intro 3(2)) simp_all
  moreover have "w \<noteq> []" using 3(4) by simp
  ultimately show ?case using 3(3) by simp
qed

lemma str_lower_fixed:
  "\<forall>c \<in> set s. lower_cp U c = [c] \<Longrightarrow> str_lower U s = s"
  by (induction s) (simp_all add: str_lower_def)

lemma set_str_join:
  "set (str_join sep ws) \<subseteq> set sep \<union> \<Union> (set ` set ws)"
  by (induction sep ws rule: str_join.induct) auto

lemma set_str_lower:
  "set (str_lower U s) = (\<Union>c \<in> set s. set (lower_cp U c))"
  by (simp add: str_lower_def)

lemma clean_text_Nil [simp]: "clean_text U [] = []"
  by (simp add: clean_text_def str_split_def str_lower_def)

text \<open>
  C7: normalisation is idempotent: \<open>clean_text(clean_text(s)) == clean_text(s)\<close> for
  every string \<open>s\<close>, on every character database in which the joining space is
  whitespace and lower-casing is stable on the alphanumeric code points it produces.
\<close>

theorem clean_text_idempotent:
  assumes "chardb_stable U"
  shows "clean_text U (clean_text U s) = clean_text U s"
proof -
  define keep where "keep = (\<lambda>e. isalnum_cp U e \<or> isspace_cp U e)"
  define ws where "ws = str_split U (filter keep (str_lower U s))"
  define A where "A = {d. isalnum_cp U d \<and> lower_cp U d = [d]}"
  from assms have sp: "isspace_cp U 32" and lo: "lower_cp U 32 = [32]"
    and st: "\<And>c d. d \<in> set (lower_cp U c) \<Longrightarrow> isalnum_cp U d \<Longrightarrow> lower_cp U d = [d]"
    by (auto simp: chardb_stable_def)
  have src: "\<forall>c \<in> set (filter keep (str_lower U s)). isspace_cp U c \<or> c \<in> A"
    using st by (auto simp: keep_def A_def set_str_lower)
  have words: "\<forall>w \<in> set ws. w \<noteq> [] \<and> (\<forall>c \<in> set w. \<not> isspace_cp U c \<and> c \<in> A)"
    unfolding ws_def str_split_def using src by (intro split_scan_words) simp_all
  have chars: "\<forall>c \<in> set (str_join [32] ws). c = 32 \<or> c \<in> A"
    using set_str_join[of "[32]" ws] words by auto
  have "str_lower U (str_join [32] ws) = str_join [32] ws"
    using chars lo by (intro str_lower_fixed) (auto simp: A_def)
  moreover have "filter keep (str_join [32] ws) = str_join [32] ws"
    using chars sp by (auto simp: filter_id_conv keep_def A_def)
  moreover have "split_scan (isspace_cp U) [] (str_join [32] ws) = ws"
    using sp words by (intro split_scan_join) auto
  ultimately have "clean_text U (str_join [32] ws) = str_join [32] ws"
    by (simp add: clean_text_def str_split_def keep_def)
  then show ?thesis
    by (simp add: clean_text_def ws_def keep_def)
qed

text \<open>
  The theorem at the ASCII and Cyrillic table and the text \<open>"Hi,  \<dots>!\t"\<close> with a
  capitalised Cyrillic word, which normalises to two lower-case words.
\<close>

theorem clean_text_idempotent_witness:
  "chardb_stable basic_chardb \<and>
   clean_text basic_chardb (clean_text basic_chardb [72, 105, 44, 32, 32, 1052, 1080, 1088, 33, 9])
     = clean_text basic_chardb [72, 105, 44, 32, 32, 1052, 1080, 1088, 33, 9] \<and>
   clean_text basic_chardb [72, 105, 44, 32, 32, 1052, 1080, 1088, 33, 9]
     = [104, 105, 32, 1084, 1080, 1088]"
proof -
  have e: "clean_text basic_chardb [72, 105, 44, 32, 32, 1052, 1080, 1088, 33, 9]
     = [104, 105, 32, 1084, 1080, 1088]"
    by (simp add: clean_text_def str_split_def str_lower_def basic_tables)
  have i: "clean_text basic_chardb (clean_text basic_chardb [72, 105, 44, 32, 32, 1052, 1080, 1088, 33, 9])
     = clean_text basic_chardb [72, 105, 44, 32, 32, 1052, 1080, 1088, 33, 9]"
    by (rule clean_text_idempotent[OF basic_chardb_stable])
  from basic_chardb_stable i e show ?thesis by blast
qed


section \<open>Properties of the similarity scorer\<close>

lemma common_prefix_len_le:
  "common_prefix_len xs ys \<le> length xs \<and> common_prefix_len xs ys \<le> length ys"
  by (induction xs ys rule: common_prefix_len.induct) simp_all

lemma common_prefix_len_same: "common_prefix_len xs xs = length xs"
  by (induction xs) simp_all

lemma fold_longer_match_full:
  "length a \<le> bk \<Longrightarrow> fold (longer_match a b) ps (bi, bj, bk) = (bi, bj, bk)"
proof (induction ps)
  case Nil
  show ?case by simp
next
  case (Cons p ps)
  obtain i j where p: "p = (i, j)" by (cases p)
  have "common_prefix_len (drop i a) (drop j b) \<le> length a"
    using common_prefix_len_le[of "drop i a" "drop j b"] by (simp; arith)
  with Cons.prems have "longer_match a b p (bi, bj, bk) = (bi, bj, bk)"
    by (simp add: longer_match_def p Let_def)
  with Cons show ?case by simp
qed

lemma find_longest_match_same:
  assumes "s \<noteq> []"
  shows "find_longest_match s s = (0, 0, length s)"
proof -
  from assms have n: "0 < length s" by simp
  then have "[0..<length s] = 0 # [1..<length s]"
    by (simp add: upt_conv_Cons)
  then have "List.product [0..<length s] [0..<length s]
      = (0, 0) # (map (Pair 0) [1..<length s] @ List.product [1..<length s] [0..<length s])"
    by simp
  moreover have "longer_match s s (0, 0) (0, 0, 0) = (0, 0, length s)"
    using n by (simp add: longer_match_def common_prefix_len_same)
  ultimately show ?thesis
    by (simp add: find_longest_match_def fold_longer_match_full)
qed

lemma find_longest_match_Nil [simp]:
  "find_longest_match [] b = (0, 0, 0)" "find_longest_match a [] = (0, 0, 0)"
proof -
  show "find_longest_match [] b = (0, 0, 0)" by (simp add: find_longest_match_def)
  have "length (List.product [0..<length a] ([] :: nat list)) = 0" by simp
  then have "List.product [0..<length a] ([] :: nat list) = []" by (simp only: length_0_conv)
  then show "find_longest_match a [] = (0, 0, 0)" by (simp add: find_longest_match_def)
qed

lemma matching_chars_Nil [simp]: "matching_chars [] b = 0" "matching_chars a [] = 0"
  by (simp_all add: matching_chars.simps)

lemma matching_chars_same: "matching_chars s s = length s"
proof (cases "s = []")
  case True
  then show ?thesis by simp
next
  case False
  then show ?thesis
    by (subst matching_chars.simps) (simp add: find_longest_match_same)
qed

lemma intr_exact: "0 < q \<Longrightarrow> intr (n * q) q = int n"
  by (simp add: intr_def)

lemma fuzz_ratio_same: "fuzz_ratio s s = 100"
proof (cases "s = []")
  case True
  then show ?thesis by (simp add: fuzz_ratio_def)
next
  case False
  then have "0 < length s + length s" by simp
  moreover have "100 * (2 * matching_chars s s) = 100 * (length s + length s)"
    by (simp add: matching_chars_same)
  ultimately show ?thesis
    using intr_exact[of "length s + length s" 100] by (simp add: fuzz_ratio_def)
qed

text \<open>
  C2: the score of a text against itself is 100: \<open>calculate_similarity(s, s) == 100\<close>
  for every string \<open>s\<close>, also for one that normalises to the empty string (only
  punctuation) and for the empty string itself.
\<close>

theorem score_same_text: "calculate_similarity U s s = 100"
  by (simp add: calculate_similarity_def fuzz_ratio_same)

text \<open>
  C3: the score of two empty strings is 100: \<open>calculate_similarity("", "") == 100\<close>.
\<close>

theorem score_two_empty: "calculate_similarity U [] [] = 100"
  by (simp add: calculate_similarity_def fuzz_ratio_def)

























section \<open>Properties of the persistence store\<close>

lemmas store_ops = ensure_table_exists_def save_original_text_def get_original_text_def
  delete_original_text_def execute_query_def cursor_execute_def get_mysql_connection_def

lemma queries_ok_example: "queries_ok n (example_store t)"
  by (simp add: queries_ok_def example_store_def)

lemma connection_ok:
  assumes "queries_ok (Suc n) s"
  shows "get_mysql_connection s = (Inr (), s\<lparr>failures := drop (Suc 0) (failures s)\<rparr>)"
proof (cases "failures s")
  case Nil
  then have "s\<lparr>failures := drop (Suc 0) (failures s)\<rparr> = s" by (cases s) simp
  with Nil show ?thesis by (simp add: get_mysql_connection_def)
next
  case (Cons f fs)
  with assms show ?thesis by (simp add: get_mysql_connection_def queries_ok_def)
qed

lemma queries_ok_step:
  "queries_ok (Suc n) s \<Longrightarrow> queries_ok n (s\<lparr>texts := m, failures := drop (Suc 0) (failures s)\<rparr>)"
  "queries_ok (Suc n) s \<Longrightarrow> queries_ok n (s\<lparr>failures := drop (Suc 0) (failures s)\<rparr>)"
  by (cases "failures s"; simp add: queries_ok_def)+

lemma ensure_table_exists_ok:
  "queries_ok (Suc n) s \<Longrightarrow>
   ensure_table_exists s = (Inr (), s\<lparr>failures := drop (Suc 0) (failures s)\<rparr>)"
  by (simp add: ensure_table_exists_def execute_query_def cursor_execute_def connection_ok)

lemma save_original_text_ok:
  "queries_ok (Suc n) s \<Longrightarrow>
   save_original_text (PStr k) (PStr t) s
     = (Inr (), s\<lparr>texts := (texts s)(k \<mapsto> t), failures := drop (Suc 0) (failures s)\<rparr>)"
  by (simp add: save_original_text_def execute_query_def cursor_execute_def connection_ok
           split: option.split)

lemma get_original_text_ok:
  "queries_ok (Suc n) s \<Longrightarrow>
   get_original_text (PStr k) s = (Inr (texts s k), s\<lparr>failures := drop (Suc 0) (failures s)\<rparr>)"
  by (simp add: get_original_text_def execute_query_def cursor_execute_def connection_ok)

lemma delete_original_text_ok:
  "queries_ok (Suc n) s \<Longrightarrow>
   delete_original_text (PStr k) s
     = (Inr (), s\<lparr>texts := (texts s)(k := None), failures := drop (Suc 0) (failures s)\<rparr>)"
  by (simp add: delete_original_text_def execute_query_def cursor_execute_def connection_ok)

lemma get_mysql_connection_cases:
  assumes "get_mysql_connection s = (r, s')"
  shows "texts s' = texts s \<and> (r = Inr () \<or> r = Inl DatabaseError)"
  using assms by (auto simp: get_mysql_connection_def split: list.splits if_splits)

lemma texts_ensure_table_exists: "texts (snd (ensure_table_exists s)) = texts s"
proof -
  obtain r s' where c: "get_mysql_connection s = (r, s')" by (cases "get_mysql_connection s")
  with get_mysql_connection_cases[OF c] have "texts s' = texts s" by simp
  with c show ?thesis
    by (cases r) (simp_all add: ensure_table_exists_def execute_query_def cursor_execute_def)
qed

lemma get_original_text_cases:
  assumes "get_original_text (PStr k) s = (r, s')"
  shows "texts s' = texts s \<and> (r = Inr (texts s k) \<or> r = Inl DatabaseError)"
proof -
  obtain c s0 where c: "get_mysql_connection s = (c, s0)" by (cases "get_mysql_connection s")
  from get_mysql_connection_cases[OF c] c assms show ?thesis
    by (auto simp: get_original_text_def execute_query_def cursor_execute_def)
qed

text \<open>
  C8: saving is an upsert that overwrites: while the store answers its queries, after
  \<open>save(id, t1)\<close> and then \<open>save(id, t2)\<close> both saves succeed and \<open>load(id)\<close> returns
  \<open>t2\<close>, for every session identifier, all texts and every content of the store before.
\<close>

theorem upsert_overwrites:
  assumes "queries_ok 3 s"
  shows "fst (save_original_text (PStr k) (PStr t1) s) = Inr () \<and>
         fst (save_original_text (PStr k) (PStr t2)
                (snd (save_original_text (PStr k) (PStr t1) s))) = Inr () \<and>
         fst (get_original_text (PStr k)
                (snd (save_original_text (PStr k) (PStr t2)
                        (snd (save_original_text (PStr k) (PStr t1) s))))) = Inr (Some t2)"
proof -
  from assms have q: "queries_ok (Suc (Suc (Suc 0))) s" by (simp add: numeral_3_eq_3)
  define s1 where "s1 = s\<lparr>texts := (texts s)(k \<mapsto> t1), failures := drop (Suc 0) (failures s)\<rparr>"
  define s2 where "s2 = s1\<lparr>texts := (texts s1)(k \<mapsto> t2), failures := drop (Suc 0) (failures s1)\<rparr>"
  have q1: "queries_ok (Suc (Suc 0)) s1"
    unfolding s1_def by (rule queries_ok_step(1)[OF q])
  have q2: "queries_ok (Suc 0) s2"
    unfolding s2_def by (rule queries_ok_step(1)[OF q1])
  have a: "save_original_text (PStr k) (PStr t1) s = (Inr (), s1)"
    unfolding s1_def by (rule save_original_text_ok[OF q])
  have b: "save_original_text (PStr k) (PStr t2) s1 = (Inr (), s2)"
    unfolding s2_def by (rule save_original_text_ok[OF q1])
  have c: "fst (get_original_text (PStr k) s2) = Inr (texts s2 k)"
    by (simp add: get_original_text_ok[OF q2])
  have "texts s2 k = Some t2" by (simp add: s2_def)
  with a b c show ?thesis by simp
qed

text \<open>The theorem at a store that already holds \<open>"a"\<close> for the session: after saving
  \<open>"b"\<close> and then \<open>"c"\<close> the lookup returns \<open>"c"\<close>.\<close>

theorem upsert_overwrites_witness:
  "queries_ok 3 (example_store [97]) \<and>
   fst (get_original_text (PStr [115, 49])
          (snd (save_original_text (PStr [115, 49]) (PStr [99])
                  (snd (save_original_text (PStr [115, 49]) (PStr [98]) (example_store [97]))))))
     = Inr (Some [99])"
proof -
  have q: "queries_ok 3 (example_store [97])" by (rule queries_ok_example)
  from upsert_overwrites[OF q, of "[115, 49]" "[98]" "[99]"] q show ?thesis by blast
qed


section \<open>Properties of the controller\<close>

lemma alice_event_fields:
  "event_field (alice_event u sid uid new) ''request'' ''original_utterance'' = Inr (PStr u)"
  "event_field (alice_event u sid uid new) ''session'' ''session_id'' = Inr (PStr sid)"
  "event_field (alice_event u sid uid new) ''session'' ''user_id'' = Inr (PStr uid)"
  "event_field (alice_event u sid uid new) ''session'' ''new'' = Inr (PBool new)"
  by (simp_all add: alice_event_def event_field_def)

lemma handler_bound:
  assumes "event_field event ''request'' ''original_utterance'' = Inr um"
    and "event_field event ''session'' ''session_id'' = Inr sid"
    and "event_field event ''session'' ''user_id'' = Inr uid"
  shows "handler U event context s =
     (case handler_try U event um sid uid s of
        (Inl e, s') \<Rightarrow> (Inr (create_response error_text (Some [reset_button]) sid uid), s')
      | (Inr r, s') \<Rightarrow> (Inr r, s'))"
  using assms by (simp add: handler_def handler_except_def split: prod.split sum.split)

lemma handler_replies_when_bound:
  assumes "event_field event ''request'' ''original_utterance'' = Inr um"
    and "event_field event ''session'' ''session_id'' = Inr sid"
    and "event_field event ''session'' ''user_id'' = Inr uid"
  shows "\<exists>r s'. handler U event context s = (Inr r, s')"
proof -
  obtain r' s' where t: "handler_try U event um sid uid s = (r', s')"
    by (cases "handler_try U event um sid uid s")
  then show ?thesis
    by (cases r') (simp_all add: handler_bound[OF assms])
qed

text \<open>
  C1, that no exception leaves the handler, also for an event from which
  \<open>session_id\<close> and \<open>user_id\<close> cannot be read, does not hold of the code: on the
  empty event the lookup of \<open>event['request']\<close> raises \<open>KeyError\<close>, the \<open>except\<close>
  clause reads the unassigned \<open>session_id\<close>, and \<open>UnboundLocalError\<close> leaves the
  handler; the store is untouched.
\<close>

theorem handler_unbound_escape:
  "handler U (PDict []) context s = (Inl UnboundLocalError, s)"
  by (simp add: handler_def handler_except_def event_field_def)

lemma handler_try_new:
  assumes "event_field event ''session'' ''new'' = Inr nw" and "truthy nw"
  shows "handler_try U event um sid uid s =
     (case ensure_table_exists s of
        (Inl e, s1) \<Rightarrow> (Inl e, s1)
      | (Inr _, s1) \<Rightarrow> (Inr (create_response greeting_text (Some [reset_button]) sid uid), s1))"
  using assms by (simp add: handler_try_def split: prod.split sum.split)

lemma texts_handler_try_new:
  assumes "event_field event ''session'' ''new'' = Inr nw" and "truthy nw"
  shows "texts (snd (handler_try U event um sid uid s)) = texts s"
proof -
  obtain r s1 where e: "ensure_table_exists s = (r, s1)" by (cases "ensure_table_exists s")
  with texts_ensure_table_exists[of s] have "texts s1 = texts s" by simp
  with e show ?thesis
    by (cases r) (simp_all add: handler_try_new[OF assms])
qed

lemma texts_handler_new:
  assumes "event_field event ''session'' ''new'' = Inr nw" and "truthy nw"
  shows "texts (snd (handler U event context s)) = texts s"
proof -
  have "texts (snd (case handler_try U event um sid uid s of
        (Inl e, s') \<Rightarrow> (handler_except (Some sid) (Some uid), s')
      | (Inr r, s') \<Rightarrow> (Inr r, s'))) = texts s" for um sid uid
  proof -
    obtain r s' where t: "handler_try U event um sid uid s = (r, s')"
      by (cases "handler_try U event um sid uid s")
    with texts_handler_try_new[OF assms, of U um sid uid s] have "texts s' = texts s" by simp
    with t show ?thesis by (cases r) simp_all
  qed
  then show ?thesis
    by (simp add: handler_def split: sum.split)
qed

text \<open>
  C5 as stated, that every event with the new-session flag set is answered by the
  greeting, fails: \<open>ensure_table_exists()\<close> runs before the new-session check, so when
  the schema query fails the handler answers a new-session event with the apology.
\<close>

theorem new_session_schema_failure_counterexample:
  "event_field (alice_event [104, 105] [115, 49] [117, 49] True) ''session'' ''new''
     = Inr (PBool True) \<and> truthy (PBool True) \<and>
   fst (handler basic_chardb (alice_event [104, 105] [115, 49] [117, 49] True) PNone
          \<lparr>texts = Map.empty, failures = [True]\<rparr>)
     = Inr (create_response error_text (Some [reset_button]) (PStr [115, 49]) (PStr [117, 49])) \<and>
   fst (handler basic_chardb (alice_event [104, 105] [115, 49] [117, 49] True) PNone
          \<lparr>texts = Map.empty, failures = [True]\<rparr>)
     \<noteq> Inr (create_response greeting_text (Some [reset_button]) (PStr [115, 49]) (PStr [117, 49]))"
proof -
  have h: "handler basic_chardb (alice_event [104, 105] [115, 49] [117, 49] True) PNone
          \<lparr>texts = Map.empty, failures = [True]\<rparr>
      = (Inr (create_response error_text (Some [reset_button]) (PStr [115, 49]) (PStr [117, 49])),
         \<lparr>texts = Map.empty, failures = []\<rparr>)"
    by (simp add: handler_bound[OF alice_event_fields(1,2,3)] handler_try_def store_ops)
  have "error_text \<noteq> greeting_text"
    by (simp add: error_text_def greeting_text_def)
  with h show ?thesis
    by (simp add: alice_event_fields(4) create_response_def)
qed

text \<open>
  C5, amended: for every event whose new-session flag is set, whatever the utterance (the
  reset keyword included) and whatever the store does, the handler changes no row of the
  table: nothing is saved and nothing is deleted.  When the three fields of the event can
  be read and the store answers the schema query, the handler returns the greeting.
\<close>

theorem new_session_greets:
  assumes "event_field event ''session'' ''new'' = Inr nw" and "truthy nw"
  shows "texts (snd (handler U event context s)) = texts s \<and>
    (\<forall>um sid uid.
       event_field event ''request'' ''original_utterance'' = Inr um \<and>
       event_field event ''session'' ''session_id'' = Inr sid \<and>
       event_field event ''session'' ''user_id'' = Inr uid \<and>
       queries_ok 1 s \<longrightarrow>
       handler U event context s =
         (Inr (create_response greeting_text (Some [reset_button]) sid uid),
          s\<lparr>failures := drop 1 (failures s)\<rparr>))"
proof (intro conjI allI impI)
  show "texts (snd (handler U event context s)) = texts s"
    by (rule texts_handler_new[OF assms])
next
  fix um sid uid
  assume h: "event_field event ''request'' ''original_utterance'' = Inr um \<and>
       event_field event ''session'' ''session_id'' = Inr sid \<and>
       event_field event ''session'' ''user_id'' = Inr uid \<and>
       queries_ok 1 s"
  then have q: "queries_ok (Suc 0) s" by simp
  from h have "handler U event context s =
     (case handler_try U event um sid uid s of
        (Inl e, s') \<Rightarrow> (Inr (create_response error_text (Some [reset_button]) sid uid), s')
      | (Inr r, s') \<Rightarrow> (Inr r, s'))"
    by (intro handler_bound) simp_all
  then show "handler U event context s =
         (Inr (create_response greeting_text (Some [reset_button]) sid uid),
          s\<lparr>failures := drop 1 (failures s)\<rparr>)"
    by (simp add: handler_try_new[OF assms] ensure_table_exists_ok[OF q])
qed

text \<open>The theorem at a new-session event whose utterance is the reset keyword, on a
  store that holds \<open>"abc"\<close> for the session: the greeting, and the store as before.\<close>

theorem new_session_greets_witness:
  "event_field (alice_event reset_keyword [115, 49] [117, 49] True) ''session'' ''new''
     = Inr (PBool True) \<and> truthy (PBool True) \<and> queries_ok 1 (example_store [97, 98, 99]) \<and>
   texts (snd (handler basic_chardb (alice_event reset_keyword [115, 49] [117, 49] True) PNone
                 (example_store [97, 98, 99]))) = texts (example_store [97, 98, 99]) \<and>
   handler basic_chardb (alice_event reset_keyword [115, 49] [117, 49] True) PNone
       (example_store [97, 98, 99])
     = (Inr (create_response greeting_text (Some [reset_button]) (PStr [115, 49]) (PStr [117, 49])),
        example_store [97, 98, 99])"
proof -
  have t: "truthy (PBool True)" by simp
  have q: "queries_ok 1 (example_store [97, 98, 99])" by (rule queries_ok_example)
  note g = new_session_greets[OF alice_event_fields(4) t,
      of basic_chardb reset_keyword "[115, 49]" "[117, 49]" PNone "example_store [97, 98, 99]"]
  from g have a: "texts (snd (handler basic_chardb (alice_event reset_keyword [115, 49] [117, 49] True)
      PNone (example_store [97, 98, 99]))) = texts (example_store [97, 98, 99])"
    by (rule conjunct1)
  from g q have b: "handler basic_chardb (alice_event reset_keyword [115, 49] [117, 49] True) PNone
       (example_store [97, 98, 99])
     = (Inr (create_response greeting_text (Some [reset_button]) (PStr [115, 49]) (PStr [117, 49])),
        example_store [97, 98, 99])"
    by (simp add: alice_event_fields example_store_def)
  from alice_event_fields(4) t q a b show ?thesis by blast
qed

lemma str_lower_reset_dot:
  "str_lower basic_chardb (reset_keyword @ [46]) \<noteq> reset_keyword"
  by (simp add: str_lower_def reset_keyword_def basic_tables)

text \<open>
  C4 as stated, that an utterance whose normalised form is the reset keyword resets the
  session, fails: the handler compares \<open>user_message.lower()\<close> with the keyword, so the
  keyword followed by a full stop, which normalises to the keyword, is not a reset.  On a
  store that holds \<open>"abc"\<close> for the session the row is still there afterwards and the
  response is not the deletion confirmation.
\<close>

theorem reset_normalised_counterexample:
  "clean_text basic_chardb (reset_keyword @ [46]) = reset_keyword \<and>
   event_field (alice_event (reset_keyword @ [46]) [115, 49] [117, 49] False) ''session'' ''new''
     = Inr (PBool False) \<and>
   texts (snd (handler basic_chardb (alice_event (reset_keyword @ [46]) [115, 49] [117, 49] False)
                 PNone (example_store [97, 98, 99]))) [115, 49] = Some [97, 98, 99] \<and>
   fst (handler basic_chardb (alice_event (reset_keyword @ [46]) [115, 49] [117, 49] False)
          PNone (example_store [97, 98, 99]))
     \<noteq> Inr (create_response deleted_text (Some [reset_button]) (PStr [115, 49]) (PStr [117, 49]))"
proof -
  have c: "clean_text basic_chardb (reset_keyword @ [46]) = reset_keyword"
    by (simp add: clean_text_def str_split_def str_lower_def reset_keyword_def basic_tables)
  have h: "handler basic_chardb (alice_event (reset_keyword @ [46]) [115, 49] [117, 49] False)
          PNone (example_store [97, 98, 99])
      = (Inr (create_response
               (percent_label @
                str_int (calculate_similarity basic_chardb [97, 98, 99] (reset_keyword @ [46])) @
                [37, 10, 10] @ original_label @ [97, 98, 99] @ [10, 10] @ your_label @
                reset_keyword @ [46])
               (Some [reset_button]) (PStr [115, 49]) (PStr [117, 49])),
         example_store [97, 98, 99])"
    by (simp add: handler_bound[OF alice_event_fields(1,2,3)] handler_try_def
          alice_event_fields(4) str_lower_reset_dot store_ops example_store_def)
  have "percent_label @ rest \<noteq> deleted_text" for rest
    by (simp add: percent_label_def deleted_text_def)
  with c h show ?thesis
    by (simp add: alice_event_fields(4) example_store_def create_response_def)
qed

text \<open>
  C4, amended: for an event that is not a new session and whose lower-cased utterance
  equals the reset keyword exactly (no punctuation or whitespace is stripped), the
  handler, while the store answers its two queries, deletes the stored text of the
  session and returns the deletion confirmation, whether or not a row existed.
\<close>

theorem reset_deletes:
  assumes "event_field event ''request'' ''original_utterance'' = Inr (PStr um)"
    and "event_field event ''session'' ''session_id'' = Inr (PStr k)"
    and "event_field event ''session'' ''user_id'' = Inr uid"
    and "event_field event ''session'' ''new'' = Inr nw" and "\<not> truthy nw"
    and "str_lower U um = reset_keyword"
    and "queries_ok 2 s"
  shows "handler U event context s =
     (Inr (create_response deleted_text (Some [reset_button]) (PStr k) uid),
      s\<lparr>texts := (texts s)(k := None), failures := drop 2 (failures s)\<rparr>)"
proof -
  from assms(7) have q: "queries_ok (Suc (Suc 0)) s" by (simp add: numeral_2_eq_2)
  have q1: "queries_ok (Suc 0) (s\<lparr>failures := drop (Suc 0) (failures s)\<rparr>)"
    by (rule queries_ok_step(2)[OF q])
  have "handler_try U event (PStr um) (PStr k) uid s =
     (Inr (create_response deleted_text (Some [reset_button]) (PStr k) uid),
      s\<lparr>texts := (texts s)(k := None), failures := drop 2 (failures s)\<rparr>)"
    using assms(4,5,6)
    by (simp add: handler_try_def ensure_table_exists_ok[OF q] delete_original_text_ok[OF q1]
          numeral_2_eq_2)
  then show ?thesis
    by (simp add: handler_bound[OF assms(1,2,3)])
qed

text \<open>The amended statement at the keyword in capitals, on a store that holds
  \<open>"abc"\<close> for the session: the confirmation, and an empty table.\<close>

theorem reset_deletes_witness:
  "str_lower basic_chardb [1057, 1041, 1056, 1054, 1057, 1048, 1058, 1068] = reset_keyword \<and>
   \<not> truthy (PBool False) \<and> queries_ok 2 (example_store [97, 98, 99]) \<and>
   handler basic_chardb
       (alice_event [1057, 1041, 1056, 1054, 1057, 1048, 1058, 1068] [115, 49] [117, 49] False)
       PNone (example_store [97, 98, 99])
     = (Inr (create_response deleted_text (Some [reset_button]) (PStr [115, 49]) (PStr [117, 49])),
        \<lparr>texts = Map.empty, failures = []\<rparr>)"
proof -
  have l: "str_lower basic_chardb [1057, 1041, 1056, 1054, 1057, 1048, 1058, 1068] = reset_keyword"
    by (simp add: str_lower_def reset_keyword_def basic_tables)
  have f: "\<not> truthy (PBool False)" by simp
  have q: "queries_ok 2 (example_store [97, 98, 99])" by (rule queries_ok_example)
  from reset_deletes[OF alice_event_fields f l q] l f q
  show ?thesis by (simp add: example_store_def)
qed

lemma handler_try_empty_original:
  assumes "event_field event ''session'' ''new'' = Inr nw" and "\<not> truthy nw"
    and "str_lower U um \<noteq> reset_keyword"
    and "texts s k = Some []"
    and "handler_try U event (PStr um) (PStr k) uid s = (Inr r, s')"
  shows "r = create_response saved_text (Some [reset_button]) (PStr k) uid"
proof -
  obtain r0 s1 where e: "ensure_table_exists s = (r0, s1)" by (cases "ensure_table_exists s")
  with texts_ensure_table_exists[of s] have t1: "texts s1 = texts s" by simp
  obtain r1 s2 where g: "get_original_text (PStr k) s1 = (r1, s2)"
    by (cases "get_original_text (PStr k) s1")
  from get_original_text_cases[OF g] t1 assms(4)
  have r1: "r1 = Inr (Some []) \<or> r1 = Inl DatabaseError" by simp
  obtain r2 s3 where sv: "save_original_text (PStr k) (PStr um) s2 = (r2, s3)"
    by (cases "save_original_text (PStr k) (PStr um) s2")
  from assms(5) r1 show ?thesis
    by (cases r0; cases r2) (auto simp: handler_try_def e g sv assms(1,2,3))
qed

text \<open>
  C9: when the stored original text of the session is the empty string, the handler, on
  an event that is neither a new session nor a reset, treats it as absent: while the
  store answers its three queries it overwrites the stored value with the utterance and
  returns the save confirmation; and whatever the store does, the response is never a
  similarity-score response (its text never starts with the label of the score).
\<close>

theorem empty_original_is_absent:
  assumes "event_field event ''request'' ''original_utterance'' = Inr (PStr um)"
    and "event_field event ''session'' ''session_id'' = Inr (PStr k)"
    and "event_field event ''session'' ''user_id'' = Inr uid"
    and "event_field event ''session'' ''new'' = Inr nw" and "\<not> truthy nw"
    and "str_lower U um \<noteq> reset_keyword"
    and "texts s k = Some []"
  shows "(queries_ok 3 s \<longrightarrow>
          handler U event context s =
            (Inr (create_response saved_text (Some [reset_button]) (PStr k) uid),
             s\<lparr>texts := (texts s)(k \<mapsto> um), failures := drop 3 (failures s)\<rparr>)) \<and>
         (\<forall>r rest. fst (handler U event context s) = Inr r \<longrightarrow>
            r_text (response r) \<noteq> percent_label @ rest)"
proof (intro conjI allI impI)
  assume "queries_ok 3 s"
  then have q: "queries_ok (Suc (Suc (Suc 0))) s" by (simp add: numeral_3_eq_3)
  define s1 where "s1 = s\<lparr>failures := drop (Suc 0) (failures s)\<rparr>"
  define s2 where "s2 = s1\<lparr>failures := drop (Suc 0) (failures s1)\<rparr>"
  define s3 where "s3 = s2\<lparr>texts := (texts s2)(k \<mapsto> um), failures := drop (Suc 0) (failures s2)\<rparr>"
  have q1: "queries_ok (Suc (Suc 0)) s1"
    unfolding s1_def by (rule queries_ok_step(2)[OF q])
  have q2: "queries_ok (Suc 0) s2"
    unfolding s2_def by (rule queries_ok_step(2)[OF q1])
  have e: "ensure_table_exists s = (Inr (), s1)"
    unfolding s1_def by (rule ensure_table_exists_ok[OF q])
  have g: "get_original_text (PStr k) s1 = (Inr (Some []), s2)"
    using get_original_text_ok[OF q1, of k] assms(7) by (simp add: s2_def s1_def)
  have sv: "save_original_text (PStr k) (PStr um) s2 = (Inr (), s3)"
    unfolding s3_def by (rule save_original_text_ok[OF q2])
  have "handler_try U event (PStr um) (PStr k) uid s =
      (Inr (create_response saved_text (Some [reset_button]) (PStr k) uid), s3)"
    using assms(4,5,6) by (simp add: handler_try_def e g sv)
  moreover have "s3 = s\<lparr>texts := (texts s)(k \<mapsto> um), failures := drop 3 (failures s)\<rparr>"
    by (simp add: s3_def s2_def s1_def numeral_3_eq_3)
  ultimately show "handler U event context s =
            (Inr (create_response saved_text (Some [reset_button]) (PStr k) uid),
             s\<lparr>texts := (texts s)(k \<mapsto> um), failures := drop 3 (failures s)\<rparr>)"
    by (simp add: handler_bound[OF assms(1,2,3)])
next
  fix r rest
  assume r: "fst (handler U event context s) = Inr r"
  obtain r' s' where t: "handler_try U event (PStr um) (PStr k) uid s = (r', s')"
    by (cases "handler_try U event (PStr um) (PStr k) uid s")
  have "r = create_response saved_text (Some [reset_button]) (PStr k) uid \<or>
        r = create_response error_text (Some [reset_button]) (PStr k) uid"
  proof (cases r')
    case (Inl x)
    with r t show ?thesis by (simp add: handler_bound[OF assms(1,2,3)])
  next
    case (Inr y)
    with t handler_try_empty_original[OF assms(4,5,6,7), of uid y s']
    have "y = create_response saved_text (Some [reset_button]) (PStr k) uid" by simp
    with r t Inr show ?thesis by (simp add: handler_bound[OF assms(1,2,3)])
  qed
  then show "r_text (response r) \<noteq> percent_label @ rest"
    by (auto simp: create_response_def saved_text_def error_text_def percent_label_def)
qed

text \<open>The theorem at the utterance \<open>"hi"\<close>, on a store that holds the empty string for
  the session: the save confirmation, and \<open>"hi"\<close> stored.\<close>

theorem empty_original_is_absent_witness:
  "str_lower basic_chardb [104, 105] \<noteq> reset_keyword \<and>
   texts (example_store []) [115, 49] = Some [] \<and> queries_ok 3 (example_store []) \<and>
   handler basic_chardb (alice_event [104, 105] [115, 49] [117, 49] False) PNone (example_store [])
     = (Inr (create_response saved_text (Some [reset_button]) (PStr [115, 49]) (PStr [117, 49])),
        example_store [104, 105])"
proof -
  have l: "str_lower basic_chardb [104, 105] \<noteq> reset_keyword"
    by (simp add: str_lower_def reset_keyword_def basic_tables)
  have f: "\<not> truthy (PBool False)" by simp
  have e: "texts (example_store []) [115, 49] = Some []" by (simp add: example_store_def)
  have q: "queries_ok 3 (example_store [])" by (rule queries_ok_example)
  from empty_original_is_absent[OF alice_event_fields f l e] q
  have "handler basic_chardb (alice_event [104, 105] [115, 49] [117, 49] False) PNone (example_store [])
     = (Inr (create_response saved_text (Some [reset_button]) (PStr [115, 49]) (PStr [117, 49])),
        example_store [104, 105])"
    by (simp add: example_store_def)
  with l e q show ?thesis by blast
qed

lemma handler_try_reply:
  assumes "handler_try U event um sid uid s = (Inr r, s')"
  shows "\<exists>t. r = create_response t (Some [reset_button]) sid uid"
proof -
  obtain r0 s1 where e: "ensure_table_exists s = (r0, s1)" by (cases "ensure_table_exists s")
  show ?thesis
  proof (cases r0)
    case (Inl x)
    with assms e show ?thesis by (simp add: handler_try_def)
  next
    case r0: (Inr u0)
    show ?thesis
    proof (cases "event_field event ''session'' ''new''")
      case (Inl x)
      with assms e r0 show ?thesis by (simp add: handler_try_def)
    next
      case nw: (Inr nw)
      show ?thesis
      proof (cases "truthy nw")
        case True
        with assms e r0 nw show ?thesis by (auto simp: handler_try_def)
      next
        case False
        show ?thesis
        proof (cases um)
          case (PStr x)
          show ?thesis
          proof (cases "str_lower U x = reset_keyword")
            case True
            obtain r1 s2 where d: "delete_original_text sid s1 = (r1, s2)"
              by (cases "delete_original_text sid s1")
            from assms e r0 nw False PStr True d show ?thesis
              by (cases r1) (auto simp: handler_try_def)
          next
            case nr: False
            obtain r2 s3 where g: "get_original_text sid s1 = (r2, s3)"
              by (cases "get_original_text sid s1")
            show ?thesis
            proof (cases r2)
              case (Inl x)
              with assms e r0 nw False PStr nr g show ?thesis by (simp add: handler_try_def)
            next
              case ot: (Inr ot)
              obtain r3 s4 where sv: "save_original_text sid (PStr x) s3 = (r3, s4)"
                by (cases "save_original_text sid (PStr x) s3")
              show ?thesis
              proof (cases "if ot = Some [] then None else ot")
                case None
                with assms e r0 nw False PStr nr g ot sv show ?thesis
                  by (cases r3) (auto simp: handler_try_def)
              next
                case (Some original)
                with assms e r0 nw False PStr nr g ot show ?thesis
                  by (auto simp: handler_try_def Let_def)
              qed
            qed
          qed
        qed (use assms e r0 nw False in \<open>simp_all add: handler_try_def\<close>)
      qed
    qed
  qed
qed

text \<open>
  C10: every response built by \<open>create_response\<close>, and so every response the handler
  returns, on every branch and also on the error branch, has \<open>session.new == True\<close>,
  \<open>end_session == False\<close> and \<open>version == "1.0"\<close>, whatever the new-session flag of the
  event.
\<close>

theorem reply_fixed_fields:
  "s_new (session (create_response text buttons session_id user_id)) \<and>
   \<not> r_end_session (response (create_response text buttons session_id user_id)) \<and>
   version (create_response text buttons session_id user_id) = ''1.0'' \<and>
   (\<forall>r s'. handler U event context s = (Inr r, s') \<longrightarrow>
      s_new (session r) \<and> \<not> r_end_session (response r) \<and> version r = ''1.0'')"
proof (intro conjI allI impI)
  fix r s'
  assume h: "handler U event context s = (Inr r, s')"
  have "\<exists>t b sid uid. r = create_response t b sid uid"
  proof (cases "event_field event ''request'' ''original_utterance''")
    case (Inl e)
    with h show ?thesis by (simp add: handler_def handler_except_def)
  next
    case um: (Inr um)
    show ?thesis
    proof (cases "event_field event ''session'' ''session_id''")
      case (Inl e)
      with h um show ?thesis by (simp add: handler_def handler_except_def)
    next
      case sid: (Inr sid)
      show ?thesis
      proof (cases "event_field event ''session'' ''user_id''")
        case (Inl e)
        with h um sid show ?thesis by (simp add: handler_def handler_except_def)
      next
        case uid: (Inr uid)
        obtain r' s'' where t: "handler_try U event um sid uid s = (r', s'')"
          by (cases "handler_try U event um sid uid s")
        show ?thesis
        proof (cases r')
          case (Inl x)
          with h t have "r = create_response error_text (Some [reset_button]) sid uid"
            by (simp add: handler_bound[OF um sid uid])
          then show ?thesis by blast
        next
          case (Inr y)
          with h t have "r = y" by (simp add: handler_bound[OF um sid uid])
          with handler_try_reply[of U event um sid uid s y s''] t Inr show ?thesis by blast
        qed
      qed
    qed
  qed
  then obtain t b sid uid where r: "r = create_response t b sid uid" by blast
  show "s_new (session r)" by (simp add: r create_response_def)
  show "\<not> r_end_session (response r)" by (simp add: r create_response_def)
  show "version r = ''1.0''" by (simp add: r create_response_def)
qed (simp_all add: create_response_def)

lemma handler_example_saves:
  "handler basic_chardb (alice_event [104, 105] [115, 49] [117, 49] False) PNone
       \<lparr>texts = Map.empty, failures = []\<rparr>
     = (Inr (create_response saved_text (Some [reset_button]) (PStr [115, 49]) (PStr [117, 49])),
        \<lparr>texts = [[115, 49] \<mapsto> [104, 105]], failures = []\<rparr>)"
proof -
  have "str_lower basic_chardb [104, 105] \<noteq> reset_keyword"
    by (simp add: str_lower_def reset_keyword_def basic_tables)
  then show ?thesis
    by (simp add: handler_bound[OF alice_event_fields(1,2,3)] handler_try_def
          alice_event_fields(4) store_ops)
qed

text \<open>The theorem at an event whose new-session flag is false, answered by the save
  confirmation.\<close>

theorem reply_fixed_fields_witness:
  "handler basic_chardb (alice_event [104, 105] [115, 49] [117, 49] False) PNone
       \<lparr>texts = Map.empty, failures = []\<rparr>
     = (Inr (create_response saved_text (Some [reset_button]) (PStr [115, 49]) (PStr [117, 49])),
        \<lparr>texts = [[115, 49] \<mapsto> [104, 105]], failures = []\<rparr>) \<and>
   s_new (session (create_response saved_text (Some [reset_button]) (PStr [115, 49]) (PStr [117, 49]))) \<and>
   \<not> r_end_session (response (create_response saved_text (Some [reset_button]) (PStr [115, 49]) (PStr [117, 49]))) \<and>
   version (create_response saved_text (Some [reset_button]) (PStr [115, 49]) (PStr [117, 49])) = ''1.0''"
  using reply_fixed_fields[of saved_text "Some [reset_button]" "PStr [115, 49]" "PStr [117, 49]"
      basic_chardb "alice_event [104, 105] [115, 49] [117, 49] False" PNone
      "\<lparr>texts = Map.empty, failures = []\<rparr>"]
    handler_example_saves
  by blast

end
